theory Spec2Isabelle
  imports Complex_Main "HOL-Library.Monad_Syntax"
begin

section \<open>Operation helpers of the Braket default simulator\<close>

text \<open>
  This theory embeds \<^verbatim>\<open>src/braket/default_simulator/operation_helpers.py\<close>: the
  Pauli eigenvalue table, the decoding of IR matrices, the four matrix validators and
  the two type-dispatched accessors.

  Conventions of the embedding:
  \<^item> Python's unbounded \<^verbatim>\<open>int\<close> is \<^typ>\<open>int\<close>; lengths and shape entries are
    \<^typ>\<open>nat\<close>.
  \<^item> numpy's floating-point numbers are modelled by the exact reals and complex numbers
    of HOL. Rounding, infinities and NaN are not part of the model; the tolerance
    comparison of \<^verbatim>\<open>numpy.allclose\<close> is kept, with numpy's default tolerances.
  \<^item> An exception is a value of type \<open>error\<close>; a function that can raise returns
    \<open>error + 'a\<close> with \<open>Inl\<close> for the exception. Python's \<^verbatim>\<open>None\<close> result of a
    validator that completes is \<open>Inr ()\<close>.
  \<^item> A recursion that may not reach its base case is a \<^theory_text>\<open>partial_function\<close> in
    the option monad: \<open>None\<close> is the absence of any result.
\<close>

subsection \<open>Exceptions\<close>

text \<open>
  Every \<^verbatim>\<open>raise\<close> of the module raises \<^verbatim>\<open>ValueError\<close>; the raise sites differ in
  their message only. A \<open>message\<close> names the message template of one raise site (the
  interpolated printout of the offending value is left out, the two dimensions of the
  dimension message are kept). \<open>Operands_could_not_be_broadcast\<close> and
  \<open>Inhomogeneous_shape\<close> are the messages of the \<^verbatim>\<open>ValueError\<close> that numpy raises
  itself, for operands of incompatible shapes and for rows of unequal length.
  \<open>AttributeError\<close>, \<open>IndexError\<close> and \<open>TypeError\<close> are raised by the Python
  runtime. \<^verbatim>\<open>functools\<close> raises \<^verbatim>\<open>RuntimeError\<close> with the messages
  \<open>Inconsistent_hierarchy\<close> and \<open>Ambiguous_dispatch\<close>.
\<close>

datatype message =
    Instruction_not_recognized
  | Is_not_a_two_dimensional_square_matrix
  | Operates_on_space_of_dimension nat nat
  | Is_not_unitary
  | Is_not_Hermitian
  | Does_not_satisfy_CPTP
  | Unrecognized_operation
  | Operands_could_not_be_broadcast
  | Inhomogeneous_shape
  | Inconsistent_hierarchy
  | Ambiguous_dispatch

datatype error =
    ValueError message
  | AttributeError
  | IndexError
  | RuntimeError message
  | TypeError

subsection \<open>Pauli eigenvalues\<close>

text \<open>
  \<^verbatim>\<open>
  @lru_cache()
  def pauli_eigenvalues(num_qubits: int) -> np.ndarray:
      if num_qubits == 1:
          return np.array([1, -1])
      return np.concatenate([pauli_eigenvalues(num_qubits - 1), -pauli_eigenvalues(num_qubits - 1)])
  \<close>
  The one-dimensional integer array is a list of integers. The function contains no
  \<^verbatim>\<open>raise\<close>, so its result type has no error alternative. The cache returns the value
  the body would compute again and does not change what is returned. The recursion
  has the single base case \<open>num_qubits = 1\<close>; whether it is reached depends on the
  argument, hence the option monad.
\<close>

partial_function (option) pauli_eigenvalues :: "int \<Rightarrow> int list option" where
  "pauli_eigenvalues num_qubits =
     (if num_qubits = 1 then Some [1, - 1]
      else do {
        first_half \<leftarrow> pauli_eigenvalues (num_qubits - 1);
        second_half \<leftarrow> pauli_eigenvalues (num_qubits - 1);
        Some (first_half @ map uminus second_half)
      })"

subsection \<open>Arrays\<close>

text \<open>
  A numpy array has a shape, one length per axis, and a buffer of its elements.
  \<^verbatim>\<open>check_matrix_dimensions\<close> reads nothing but the shape, and it is the one function
  of the module that is written for arrays of any number of axes.
\<close>

record 'a ndarray =
  shape :: "nat list"
  buffer :: "'a list"

text \<open>
  All other functions compute with two-dimensional arrays. Such an array is the list of
  its rows, each row the list of its entries; the rows of an array have equal length.
  \<open>has_shape r c A\<close> says that \<open>A\<close> has \<open>r\<close> rows of length \<open>c\<close>. The entry at row
  \<open>i\<close> and column \<open>j\<close> is \<open>A ! i ! j\<close>. An array without rows is the empty list and
  counts as having no columns.
\<close>

type_synonym matrix = "complex list list"

definition nrows :: "'a list list \<Rightarrow> nat" where
  "nrows A = length A"

definition ncols :: "'a list list \<Rightarrow> nat" where
  "ncols A = (case A of [] \<Rightarrow> 0 | row # _ \<Rightarrow> length row)"

definition has_shape :: "nat \<Rightarrow> nat \<Rightarrow> 'a list list \<Rightarrow> bool" where
  "has_shape r c A \<longleftrightarrow> length A = r \<and> list_all (\<lambda>row. length row = c) A"

definition ndarray_of_rows :: "'a list list \<Rightarrow> 'a ndarray" where
  "ndarray_of_rows A = \<lparr>shape = [nrows A, ncols A], buffer = concat A\<rparr>"

text \<open>The array with \<open>r\<close> rows and \<open>c\<close> columns whose entry at \<open>(i, j)\<close> is \<open>f i j\<close>.\<close>

definition tabulate2 :: "nat \<Rightarrow> nat \<Rightarrow> (nat \<Rightarrow> nat \<Rightarrow> 'a) \<Rightarrow> 'a list list" where
  "tabulate2 r c f = map (\<lambda>i. map (\<lambda>j. f i j) [0..<c]) [0..<r]"

text \<open>
  The numpy operations the validators call, on two-dimensional arrays:
  \<^verbatim>\<open>np.eye(N, M)\<close> (with \<^verbatim>\<open>np.eye(N)\<close> being \<^verbatim>\<open>np.eye(N, N)\<close>), \<^verbatim>\<open>A.T\<close>,
  \<^verbatim>\<open>A.conj()\<close> and its alias \<^verbatim>\<open>A.conjugate()\<close>, and \<^verbatim>\<open>A.dot(B)\<close>, which is
  \<^verbatim>\<open>np.dot(A, B)\<close>. The validators apply \<open>dot\<close> to a matrix and its own conjugate
  transpose only, so the inner dimensions always agree.
\<close>

definition eye :: "nat \<Rightarrow> nat \<Rightarrow> matrix" where
  "eye N M = tabulate2 N M (\<lambda>i j. if i = j then 1 else 0)"

definition T :: "'a list list \<Rightarrow> 'a list list" where
  "T A = tabulate2 (ncols A) (nrows A) (\<lambda>i j. A ! j ! i)"

definition conjugate :: "matrix \<Rightarrow> matrix" where
  "conjugate A = map (map cnj) A"

definition dot :: "matrix \<Rightarrow> matrix \<Rightarrow> matrix" where
  "dot A B = tabulate2 (nrows A) (ncols B) (\<lambda>i j. \<Sum>k\<leftarrow>[0..<ncols A]. A ! i ! k * B ! k ! j)"

text \<open>
  An element-wise binary operation broadcasts its operands: along each axis the two
  lengths must be equal, or one of them must be \<open>1\<close>, in which case that operand is
  repeated along the axis. Otherwise numpy raises \<^verbatim>\<open>ValueError\<close>.
\<close>

definition broadcast_dim :: "nat \<Rightarrow> nat \<Rightarrow> nat option" where
  "broadcast_dim a b =
     (if a = b then Some a else if a = 1 then Some b else if b = 1 then Some a else None)"

definition stretched :: "'a list list \<Rightarrow> nat \<Rightarrow> nat \<Rightarrow> 'a" where
  "stretched A i j = A ! (if nrows A = 1 then 0 else i) ! (if ncols A = 1 then 0 else j)"

definition broadcast2 ::
  "('a \<Rightarrow> 'b \<Rightarrow> 'c) \<Rightarrow> 'a list list \<Rightarrow> 'b list list \<Rightarrow> error + 'c list list" where
  "broadcast2 f A B =
     (case (broadcast_dim (nrows A) (nrows B), broadcast_dim (ncols A) (ncols B)) of
        (Some r, Some c) \<Rightarrow> Inr (tabulate2 r c (\<lambda>i j. f (stretched A i j) (stretched B i j)))
      | _ \<Rightarrow> Inl (ValueError Operands_could_not_be_broadcast))"

text \<open>
  \<^verbatim>\<open>np.allclose(a, b)\<close> with its default tolerances \<^verbatim>\<open>rtol=1e-05\<close> and
  \<^verbatim>\<open>atol=1e-08\<close>: every entry must satisfy \<^verbatim>\<open>|a - b| <= atol + rtol * |b|\<close>. The
  relative part is taken of the second argument.
\<close>

definition rtol :: real where
  "rtol = 1 / 10 ^ 5"

definition atol :: real where
  "atol = 1 / 10 ^ 8"

definition isclose :: "complex \<Rightarrow> complex \<Rightarrow> bool" where
  "isclose a b \<longleftrightarrow> cmod (a - b) \<le> atol + rtol * cmod b"

definition allclose :: "matrix \<Rightarrow> matrix \<Rightarrow> error + bool" where
  "allclose A B =
     (case broadcast2 isclose A B of
        Inl e \<Rightarrow> Inl e
      | Inr close \<Rightarrow> Inr (list_all (list_all id) close))"

text \<open>
  Python's \<^verbatim>\<open>sum\<close> starts from the integer \<open>0\<close> and adds the items from left to
  right. Adding an array to an integer adds the integer to every entry; adding two
  arrays broadcasts. The running result is therefore an integer or an array.
\<close>

datatype py_value = PyInt int | NdArray matrix

fun py_add :: "py_value \<Rightarrow> matrix \<Rightarrow> error + py_value" where
  "py_add (PyInt k) B = Inr (NdArray (map (map (\<lambda>x. of_int k + x)) B))"
| "py_add (NdArray A) B =
     (case broadcast2 (+) A B of Inl e \<Rightarrow> Inl e | Inr C \<Rightarrow> Inr (NdArray C))"

fun sum_from :: "py_value \<Rightarrow> matrix list \<Rightarrow> error + py_value" where
  "sum_from result [] = Inr result"
| "sum_from result (B # Bs) =
     (case py_add result B of Inl e \<Rightarrow> Inl e | Inr result' \<Rightarrow> sum_from result' Bs)"

definition py_sum :: "matrix list \<Rightarrow> error + py_value" where
  "py_sum Bs = sum_from (PyInt 0) Bs"

subsection \<open>Decoding an IR matrix\<close>

text \<open>
  \<^verbatim>\<open>
  def ir_matrix_to_ndarray(matrix: List[List[List[float]]]) -> np.ndarray:
      return np.array([[complex(element[0], element[1]) for element in row] for row in matrix])
  \<close>
  Indexing an element that has fewer than two components raises \<^verbatim>\<open>IndexError\<close>;
  components after the second are not read. The comprehensions run over the rows and
  over the elements of a row in order and stop at the first exception.
  \<^verbatim>\<open>np.array\<close> makes the two-dimensional array of a list of rows of equal length. For
  rows of unequal length numpy (from version 1.24 on) raises \<^verbatim>\<open>ValueError\<close>; earlier
  versions build a one-dimensional array of Python lists, which is no matrix either.
\<close>

definition py_complex :: "real list \<Rightarrow> error + complex" where
  "py_complex element =
     (if length element < 2 then Inl IndexError
      else Inr (Complex (element ! 0) (element ! 1)))"

fun comprehension :: "('a \<Rightarrow> error + 'b) \<Rightarrow> 'a list \<Rightarrow> error + 'b list" where
  "comprehension f [] = Inr []"
| "comprehension f (x # xs) =
     (case f x of
        Inl e \<Rightarrow> Inl e
      | Inr y \<Rightarrow> (case comprehension f xs of Inl e \<Rightarrow> Inl e | Inr ys \<Rightarrow> Inr (y # ys)))"

definition np_array :: "'a list list \<Rightarrow> error + 'a list list" where
  "np_array rows =
     (if list_all (\<lambda>row. length row = ncols rows) rows then Inr rows
      else Inl (ValueError Inhomogeneous_shape))"

definition ir_matrix_to_ndarray :: "real list list list \<Rightarrow> error + matrix" where
  "ir_matrix_to_ndarray matrix =
     (case comprehension (\<lambda>row. comprehension (\<lambda>element. py_complex element) row) matrix of
        Inl e \<Rightarrow> Inl e
      | Inr rows \<Rightarrow> np_array rows)"

subsection \<open>Matrix validators\<close>

text \<open>
  \<^verbatim>\<open>
  def check_matrix_dimensions(matrix: np.ndarray, targets: Tuple[int, ...]) -> None:
      if len(matrix.shape) != 2 or matrix.shape[0] != matrix.shape[1]:
          raise ValueError(f"{matrix} is not a two-dimensional square matrix")
      dimension = 2 ** len(targets)
      if dimension != matrix.shape[0]:
          raise ValueError(
              f"`matrix` operates on space of dimension {matrix.shape[0]} instead of {dimension}"
          )
  \<close>
  Python's \<^verbatim>\<open>or\<close> reads \<^verbatim>\<open>matrix.shape[0]\<close> and \<^verbatim>\<open>matrix.shape[1]\<close> only when the
  shape has two entries; the nested conditional does the same.
\<close>

definition check_matrix_dimensions :: "'a ndarray \<Rightarrow> int list \<Rightarrow> error + unit" where
  "check_matrix_dimensions matrix targets =
     (if (if length (shape matrix) \<noteq> 2 then True else shape matrix ! 0 \<noteq> shape matrix ! 1)
      then Inl (ValueError Is_not_a_two_dimensional_square_matrix)
      else
        let dimension = 2 ^ length targets in
        if dimension \<noteq> shape matrix ! 0
        then Inl (ValueError (Operates_on_space_of_dimension (shape matrix ! 0) dimension))
        else Inr ())"

text \<open>
  \<^verbatim>\<open>
  def check_unitary(matrix: np.ndarray):
      if not np.allclose(np.eye(len(matrix)), matrix.dot(matrix.T.conj())):
          raise ValueError(f"{matrix} is not unitary")
  \<close>
\<close>

definition check_unitary :: "matrix \<Rightarrow> error + unit" where
  "check_unitary matrix =
     (case allclose (eye (length matrix) (length matrix)) (dot matrix (conjugate (T matrix))) of
        Inl e \<Rightarrow> Inl e
      | Inr close \<Rightarrow> if \<not> close then Inl (ValueError Is_not_unitary) else Inr ())"

text \<open>
  \<^verbatim>\<open>
  def check_hermitian(matrix: np.ndarray):
      if not np.allclose(matrix, matrix.T.conj()):
          raise ValueError(f"{matrix} is not Hermitian")
  \<close>
\<close>

definition check_hermitian :: "matrix \<Rightarrow> error + unit" where
  "check_hermitian matrix =
     (case allclose matrix (conjugate (T matrix)) of
        Inl e \<Rightarrow> Inl e
      | Inr close \<Rightarrow> if \<not> close then Inl (ValueError Is_not_Hermitian) else Inr ())"

text \<open>
  \<^verbatim>\<open>
  def check_CPTP(matrices: List[np.ndarray]):
      E = sum([np.dot(matrix.T.conjugate(), matrix) for matrix in matrices])
      if not np.allclose(E, np.eye(*E.shape)):
          raise ValueError(f"{matrices} does not satisfy CPTP")
  \<close>
  The arguments of \<^verbatim>\<open>np.allclose\<close> are evaluated before the call, so \<^verbatim>\<open>E.shape\<close>
  is read first; an integer has no attribute \<^verbatim>\<open>shape\<close>.
\<close>

definition check_CPTP :: "matrix list \<Rightarrow> error + unit" where
  "check_CPTP matrices =
     (case py_sum (map (\<lambda>matrix. dot (conjugate (T matrix)) matrix) matrices) of
        Inl e \<Rightarrow> Inl e
      | Inr (PyInt _) \<Rightarrow> Inl AttributeError
      | Inr (NdArray E) \<Rightarrow>
          (case allclose E (eye (nrows E) (ncols E)) of
             Inl e \<Rightarrow> Inl e
           | Inr close \<Rightarrow> if \<not> close then Inl (ValueError Does_not_satisfy_CPTP) else Inr ()))"

subsection \<open>Dispatch on the type of the argument\<close>

text \<open>
  \<^verbatim>\<open>functools.singledispatch\<close> keeps a registry from classes to implementations and
  chooses by the class of the first argument. The choice depends on the class hierarchy,
  so the model has classes: \<open>Object\<close> is Python's \<^verbatim>\<open>object\<close>; any other class has a
  name, the flag that it has the attribute \<^verbatim>\<open>__abstractmethods__\<close> (it was created
  by \<^verbatim>\<open>ABCMeta\<close>), and the base classes of its class statement. A class statement
  without base classes makes a class whose only base is \<^verbatim>\<open>object\<close>.
  \<open>cls_bases\<close> is \<^verbatim>\<open>cls.__bases__\<close>. \<open>ancestors\<close> lists a class and everything it
  inherits from; these are the members of \<^verbatim>\<open>cls.__mro__\<close>, which the dispatcher
  uses for membership tests.
\<close>

datatype cls = Object | Class string bool "cls list"

fun cls_bases :: "cls \<Rightarrow> cls list" where
  "cls_bases Object = []"
| "cls_bases (Class name abstract declared) = (if declared = [] then [Object] else declared)"

fun has_abstractmethods :: "cls \<Rightarrow> bool" where
  "has_abstractmethods Object = False"
| "has_abstractmethods (Class name abstract declared) = abstract"

fun ancestors :: "cls \<Rightarrow> cls list" where
  "ancestors Object = [Object]"
| "ancestors (Class name abstract declared) =
     Class name abstract declared
       # (if declared = [] then [Object] else concat (map ancestors declared))"

text \<open>
  What the interpreter knows beyond the classes themselves: the classes that exist, in
  the order of their creation, and the pairs \<open>(c, t)\<close> for which
  \<^verbatim>\<open>issubclass(c, t)\<close> holds although \<open>c\<close> does not inherit from \<open>t\<close>: \<open>c\<close> is a
  virtual subclass of the abstract base class \<open>t\<close>, by \<^verbatim>\<open>t.register\<close>, by a subclass
  hook, or because it is a subclass of such a class. \<open>subclasses\<close> is
  \<^verbatim>\<open>t.__subclasses__()\<close>, the existing classes that name \<open>t\<close> as a base.
\<close>

record runtime =
  all_classes :: "cls list"
  virtual_subclasses :: "(cls \<times> cls) list"

definition issubclass :: "runtime \<Rightarrow> cls \<Rightarrow> cls \<Rightarrow> bool" where
  "issubclass rt c t \<longleftrightarrow> t \<in> set (ancestors c) \<or> (c, t) \<in> set (virtual_subclasses rt)"

definition subclasses :: "runtime \<Rightarrow> cls \<Rightarrow> cls list" where
  "subclasses rt t = filter (\<lambda>c. t \<in> set (cls_bases c)) (all_classes rt)"

text \<open>A list of results is the list of the values, or the first exception.\<close>

fun collect :: "(error + 'a) list \<Rightarrow> error + 'a list" where
  "collect [] = Inr []"
| "collect (r # rs) =
     (case r of
        Inl e \<Rightarrow> Inl e
      | Inr y \<Rightarrow> (case collect rs of Inl e \<Rightarrow> Inl e | Inr ys \<Rightarrow> Inr (y # ys)))"

text \<open>
  \<^verbatim>\<open>functools._c3_merge(sequences)\<close>. Each round drops the empty sequences and
  returns the result when none is left. Otherwise the candidate is the first head that
  occurs in the tail of no sequence; without one the function raises
  \<^verbatim>\<open>RuntimeError("Inconsistent hierarchy")\<close>. The candidate is appended to the
  result and removed from the front of every sequence that starts with it.
\<close>

definition merge_candidate :: "'a list list \<Rightarrow> 'a option" where
  "merge_candidate sequences =
     find (\<lambda>candidate. \<not> list_ex (\<lambda>s2. candidate \<in> set (tl s2)) sequences) (map hd sequences)"

function c3_merge :: "'a list list \<Rightarrow> 'a list \<Rightarrow> error + 'a list" where
  "c3_merge sequences result =
     (let sequences = filter (\<lambda>s. s \<noteq> []) sequences in
      if sequences = [] then Inr result
      else
        (case merge_candidate sequences of
           None \<Rightarrow> Inl (RuntimeError Inconsistent_hierarchy)
         | Some candidate \<Rightarrow>
             c3_merge (map (\<lambda>seq. if hd seq = candidate then tl seq else seq) sequences)
               (result @ [candidate])))"
  by pat_completeness auto
termination
proof (relation "measure (\<lambda>(sequences, result). sum_list (map length sequences))")
  show "wf (measure (\<lambda>(sequences, result). sum_list (map length sequences)))"
    by simp
next
  fix sequences :: "'a list list" and result :: "'a list" and xs candidate
  assume xs: "xs = filter (\<lambda>s. s \<noteq> []) sequences" and "xs \<noteq> []"
    and candidate: "merge_candidate xs = Some candidate"
  define behead where "behead = (\<lambda>seq :: 'a list. if hd seq = candidate then tl seq else seq)"
  have shorter: "sum_list (map length (map behead ys)) \<le> sum_list (map length ys)" for ys
    by (induction ys) (auto simp: behead_def)
  have strictly: "sum_list (map length (map behead ys)) < sum_list (map length ys)"
    if "\<forall>s \<in> set ys. s \<noteq> []" and "candidate \<in> hd ` set ys" for ys
    using that
  proof (induction ys)
    case Nil
    then show ?case by simp
  next
    case (Cons s ys)
    show ?case
    proof (cases "hd s = candidate")
      case True
      with Cons.prems have "length (tl s) < length s" by (cases s) auto
      with shorter [of ys] True show ?thesis by (simp add: behead_def)
    next
      case False
      with Cons.prems have "candidate \<in> hd ` set ys" by auto
      with Cons False show ?thesis by (simp add: behead_def)
    qed
  qed
  have "candidate \<in> hd ` set xs"
    using candidate by (auto simp: merge_candidate_def find_Some_iff)
  moreover have "\<forall>s \<in> set xs. s \<noteq> []"
    by (simp add: xs)
  ultimately have "sum_list (map length (map behead xs)) < sum_list (map length xs)"
    by (intro strictly)
  also have "sum_list (map length xs) = sum_list (map length sequences)"
    unfolding xs by (induction sequences) auto
  finally show "((map (\<lambda>seq. if hd seq = candidate then tl seq else seq) xs, result @ [candidate]),
      (sequences, result)) \<in> measure (\<lambda>(sequences, result). sum_list (map length sequences))"
    by (simp add: behead_def)
qed

text \<open>
  \<^verbatim>\<open>functools._c3_mro(cls, abcs)\<close>, the linearization of \<open>cls\<close> with the abstract base
  classes \<open>abcs\<close> inserted. \<open>boundary\<close> is the position behind the last base that has
  \<^verbatim>\<open>__abstractmethods__\<close>; the bases before it are the explicit bases, the others
  follow. An abstract base class of \<open>abcs\<close> is inserted at \<open>cls\<close> when \<open>cls\<close> is a
  subclass of it and no base of \<open>cls\<close> is; these are removed from \<open>abcs\<close> for the
  recursive calls. Without \<open>abcs\<close> this is the linearization that Python builds for
  \<^verbatim>\<open>cls.__mro__\<close>; Python creates a class only when it exists.
\<close>

function c3_mro :: "runtime \<Rightarrow> cls \<Rightarrow> cls list \<Rightarrow> error + cls list" where
  "c3_mro rt cls abcs =
     (let boundary = length (dropWhile (\<lambda>base. \<not> has_abstractmethods base) (rev (cls_bases cls)));
          explicit_bases = take boundary (cls_bases cls);
          other_bases = drop boundary (cls_bases cls);
          abstract_bases =
            filter (\<lambda>base. issubclass rt cls base
                      \<and> \<not> list_ex (\<lambda>b. issubclass rt b base) (cls_bases cls)) abcs;
          abcs = fold remove1 abstract_bases abcs
      in
        case collect (map (\<lambda>base. c3_mro rt base abcs) explicit_bases) of
          Inl e \<Rightarrow> Inl e
        | Inr explicit_c3_mros \<Rightarrow>
        (case collect (map (\<lambda>base. c3_mro rt base abcs) abstract_bases) of
          Inl e \<Rightarrow> Inl e
        | Inr abstract_c3_mros \<Rightarrow>
        (case collect (map (\<lambda>base. c3_mro rt base abcs) other_bases) of
          Inl e \<Rightarrow> Inl e
        | Inr other_c3_mros \<Rightarrow>
            c3_merge
              ([cls] # explicit_c3_mros @ abstract_c3_mros @ other_c3_mros
                 @ [explicit_bases, abstract_bases, other_bases]) [])))"
  by pat_completeness auto
termination
proof -
  have removed_le: "length (fold remove1 xs ys) \<le> length ys" for xs ys :: "cls list"
  proof (induction xs arbitrary: ys)
    case Nil
    show ?case by simp
  next
    case (Cons x xs)
    have "length (fold remove1 xs (remove1 x ys)) \<le> length (remove1 x ys)"
      by (rule Cons.IH)
    also have "\<dots> \<le> length ys"
      by (simp add: length_remove1)
    finally show ?case by simp
  qed
  have removed_less: "length (fold remove1 (filter P ys) ys) < length ys"
    if "b \<in> set ys" and "P b" for b P and ys :: "cls list"
  proof -
    from that have "b \<in> set (filter P ys)"
      by simp
    then obtain x xs where split: "filter P ys = x # xs"
      by (cases "filter P ys") auto
    then have "x \<in> set (filter P ys)"
      by simp
    then have "x \<in> set ys"
      by simp
    then have "length (remove1 x ys) < length ys"
      using length_pos_if_in_set [of x ys] by (simp add: length_remove1)
    moreover have "length (fold remove1 xs (remove1 x ys)) \<le> length (remove1 x ys)"
      by (rule removed_le)
    ultimately show ?thesis by (simp add: split)
  qed
  have smaller: "size b < size c" if "b \<in> set (cls_bases c)" for b c
  proof (cases c)
    case Object
    with that show ?thesis by simp
  next
    case (Class name abstract declared)
    with that show ?thesis
      by (auto simp: less_Suc_eq_le size_list_estimation' split: if_splits)
  qed
  show ?thesis
    by (relation "measures [\<lambda>(rt, cls, abcs). length abcs, \<lambda>(rt, cls, abcs). size cls]")
      (auto simp: removed_less dest!: in_set_takeD in_set_dropD smaller
        intro: le_neq_implies_less removed_le)
qed

declare c3_merge.simps [simp del] c3_mro.simps [simp del]

text \<open>
  \<^verbatim>\<open>functools._compose_mro(cls, types)\<close>, where \<open>types\<close> are the registered classes.
  Of these it keeps the related ones: those outside \<^verbatim>\<open>cls.__mro__\<close> of which \<open>cls\<close>
  is a subclass (that a key has the attribute \<^verbatim>\<open>__mro__\<close> and is no generic alias
  holds of every class). It drops those that another related class inherits from. For every
  class that is left it looks at the subclasses of that class which \<open>cls\<close> also is a
  subclass of: without such a subclass the class itself is appended to the list of
  abstract base classes, otherwise the related classes in the linearizations of these
  subclasses are, those of the longest lists first (Python's sort is stable, also in
  reverse). The result is the linearization of \<open>cls\<close> with this list inserted.
\<close>

definition is_related :: "runtime \<Rightarrow> cls \<Rightarrow> cls \<Rightarrow> bool" where
  "is_related rt cls typ \<longleftrightarrow> typ \<notin> set (ancestors cls) \<and> issubclass rt cls typ"

definition is_strict_base :: "cls list \<Rightarrow> cls \<Rightarrow> bool" where
  "is_strict_base types typ \<longleftrightarrow>
     list_ex (\<lambda>other. typ \<noteq> other \<and> typ \<in> set (ancestors other)) types"

definition append_new :: "'a \<Rightarrow> 'a list \<Rightarrow> 'a list" where
  "append_new x mro = (if x \<in> set mro then mro else mro @ [x])"

definition found_for :: "runtime \<Rightarrow> cls \<Rightarrow> cls list \<Rightarrow> cls \<Rightarrow> error + cls list list" where
  "found_for rt cls types typ =
     collect
       (map (\<lambda>sub. case c3_mro rt sub [] of
                     Inl e \<Rightarrow> Inl e
                   | Inr sub_mro \<Rightarrow> Inr (filter (\<lambda>s. s \<in> set types) sub_mro))
          (filter (\<lambda>sub. sub \<notin> set (ancestors cls) \<and> issubclass rt cls sub)
             (subclasses rt typ)))"

definition compose_step ::
  "runtime \<Rightarrow> cls \<Rightarrow> cls list \<Rightarrow> cls \<Rightarrow> error + cls list \<Rightarrow> error + cls list" where
  "compose_step rt cls types typ acc =
     (case acc of
        Inl e \<Rightarrow> Inl e
      | Inr mro \<Rightarrow>
          (case found_for rt cls types typ of
             Inl e \<Rightarrow> Inl e
           | Inr found \<Rightarrow>
               if found = [] then Inr (mro @ [typ])
               else Inr (fold (\<lambda>sub mro. fold append_new sub mro)
                           (sort_key (\<lambda>sub. - int (length sub)) found) mro)))"

definition compose_mro :: "runtime \<Rightarrow> cls \<Rightarrow> cls list \<Rightarrow> error + cls list" where
  "compose_mro rt cls types =
     (let types = filter (is_related rt cls) types;
          types = filter (\<lambda>n. \<not> is_strict_base types n) types
      in case fold (compose_step rt cls types) types (Inr []) of
           Inl e \<Rightarrow> Inl e
         | Inr mro \<Rightarrow> c3_mro rt cls mro)"

text \<open>
  \<^verbatim>\<open>functools._find_impl(cls, registry)\<close> walks the composed order. The first
  registered class is the match. The class after the match is looked at once more: if
  it is registered too, neither of the two is in \<^verbatim>\<open>cls.__mro__\<close> and the match is no
  subclass of it, the function raises \<^verbatim>\<open>RuntimeError("Ambiguous dispatch")\<close>. The
  result is \<^verbatim>\<open>registry.get(match)\<close>, which is \<^verbatim>\<open>None\<close> without a match.
  The registry is a Python dictionary: a list of keys with their values, in the order in
  which the keys were first set.
\<close>

fun find_loop ::
  "runtime \<Rightarrow> cls \<Rightarrow> (cls \<times> 'f) list \<Rightarrow> cls option \<Rightarrow> cls list \<Rightarrow> error + 'f option" where
  "find_loop rt cls registry None [] = Inr None"
| "find_loop rt cls registry (Some match) [] = Inr (map_of registry match)"
| "find_loop rt cls registry (Some match) (t # ts) =
     (if t \<in> fst ` set registry \<and> t \<notin> set (ancestors cls) \<and> match \<notin> set (ancestors cls)
         \<and> \<not> issubclass rt match t
      then Inl (RuntimeError Ambiguous_dispatch)
      else Inr (map_of registry match))"
| "find_loop rt cls registry None (t # ts) =
     find_loop rt cls registry (if t \<in> fst ` set registry then Some t else None) ts"

definition find_impl :: "runtime \<Rightarrow> cls \<Rightarrow> (cls \<times> 'f) list \<Rightarrow> error + 'f option" where
  "find_impl rt cls registry =
     (case compose_mro rt cls (map fst registry) of
        Inl e \<Rightarrow> Inl e
      | Inr mro \<Rightarrow> find_loop rt cls registry None mro)"

text \<open>
  The functions that \<^verbatim>\<open>singledispatch(func)\<close> builds. \<^verbatim>\<open>dispatch(cls)\<close> takes the
  implementation registered for \<open>cls\<close> itself when there is one and asks
  \<^verbatim>\<open>_find_impl\<close> otherwise; its cache stores what it computed and does not change
  the result. The decorator registers the decorated function for \<^verbatim>\<open>object\<close>;
  \<^verbatim>\<open>register(cls, func)\<close> sets \<^verbatim>\<open>registry[cls] = func\<close>. The wrapper calls the
  implementation that \<^verbatim>\<open>dispatch\<close> returns for the class of its argument; calling
  \<^verbatim>\<open>None\<close> raises \<^verbatim>\<open>TypeError\<close>.
\<close>

definition dispatch :: "runtime \<Rightarrow> (cls \<times> 'f) list \<Rightarrow> cls \<Rightarrow> error + 'f option" where
  "dispatch rt registry cls =
     (case map_of registry cls of
        Some impl \<Rightarrow> Inr (Some impl)
      | None \<Rightarrow> find_impl rt cls registry)"

fun dict_set :: "'k \<Rightarrow> 'v \<Rightarrow> ('k \<times> 'v) list \<Rightarrow> ('k \<times> 'v) list" where
  "dict_set k v [] = [(k, v)]"
| "dict_set k v (item # items) =
     (if fst item = k then (k, v) # items else item # dict_set k v items)"

definition singledispatch :: "'f \<Rightarrow> (cls \<times> 'f) list" where
  "singledispatch func = dict_set Object func []"

definition register :: "cls \<times> 'f \<Rightarrow> (cls \<times> 'f) list \<Rightarrow> (cls \<times> 'f) list" where
  "register entry registry = dict_set (fst entry) (snd entry) registry"

definition wrapper ::
  "runtime \<Rightarrow> (cls \<times> ('a \<Rightarrow> error + 'b)) list \<Rightarrow> cls \<Rightarrow> 'a \<Rightarrow> error + 'b" where
  "wrapper rt registry arg_class arg =
     (case dispatch rt registry arg_class of
        Inl e \<Rightarrow> Inl e
      | Inr None \<Rightarrow> Inl TypeError
      | Inr (Some impl) \<Rightarrow> impl arg)"

text \<open>
  Modelled from the spec: the instruction classes of the IR and the constructors that
  other modules register on \<^verbatim>\<open>_from_braket_instruction\<close> are not part of the source.
  An instruction carries its discriminant, which is its class, and its kind-specific
  parameters. The registrations of the other modules, in their order, are a parameter
  of the model, as are the classes that exist; a registered constructor returns an
  operation or raises.

  \<^verbatim>\<open>
  def from_braket_instruction(instruction) -> Union[GateOperation, KrausOperation]:
      return _from_braket_instruction(instruction)

  @singledispatch
  def _from_braket_instruction(instruction):
      raise ValueError(f"Instruction {instruction} not recognized")
  \<close>
  The model of \<^verbatim>\<open>_from_braket_instruction\<close> is \<open>from_braket_instruction_dispatch\<close>.
\<close>

record 'p instruction =
  instruction_type :: cls
  parameters :: 'p

type_synonym ('p, 'op) constructor = "'p instruction \<Rightarrow> error + 'op"

definition from_braket_instruction_dispatch ::
  "runtime \<Rightarrow> (cls \<times> ('p, 'op) constructor) list \<Rightarrow> 'p instruction \<Rightarrow> error + 'op" where
  "from_braket_instruction_dispatch rt registrations instruction =
     wrapper rt
       (fold register registrations
          (singledispatch (\<lambda>instruction. Inl (ValueError Instruction_not_recognized))))
       (instruction_type instruction) instruction"

definition from_braket_instruction ::
  "runtime \<Rightarrow> (cls \<times> ('p, 'op) constructor) list \<Rightarrow> 'p instruction \<Rightarrow> error + 'op" where
  "from_braket_instruction rt registrations instruction =
     from_braket_instruction_dispatch rt registrations instruction"

text \<open>
  Classes for the examples: a base class of instructions with the instruction class
  \<open>CNot\<close>, a subclass of \<open>CNot\<close>, an instruction class \<open>Unknown\<close>, and an abstract
  base class \<open>Controlled\<close> with the class \<open>Toffoli\<close> registered as its virtual subclass.
\<close>

definition BaseModel :: cls where
  "BaseModel = Class ''BaseModel'' False []"

definition CNot :: cls where
  "CNot = Class ''CNot'' False [BaseModel]"

definition SubCNot :: cls where
  "SubCNot = Class ''SubCNot'' False [CNot]"

definition Unknown :: cls where
  "Unknown = Class ''Unknown'' False [BaseModel]"

definition Controlled :: cls where
  "Controlled = Class ''Controlled'' True []"

definition Toffoli :: cls where
  "Toffoli = Class ''Toffoli'' False [BaseModel]"

definition example_runtime :: runtime where
  "example_runtime =
     \<lparr>all_classes = [Object, BaseModel, CNot, SubCNot, Unknown, Controlled, Toffoli],
      virtual_subclasses = [(Toffoli, Controlled)]\<rparr>"

text \<open>
  Modelled from the spec: the classes \<^verbatim>\<open>GateOperation\<close>, \<^verbatim>\<open>KrausOperation\<close> and
  \<^verbatim>\<open>Observable\<close> are imported from \<^verbatim>\<open>braket.default_simulator.operation\<close>, which is
  not part of the source. The spec describes an operation as one of three variants: a
  gate with its target qubits and one matrix, a Kraus channel with its target qubits and
  an ordered list of matrices, and an observable with its diagonalizing matrix. A Python
  value is an instance of one of the three classes or a value of some other type \<open>'x\<close>.
  The type of matrices is a parameter, since the accessor passes them on unread.

  \<^verbatim>\<open>
  def get_matrix(operation) -> Optional[np.ndarray]:
      return _get_matrix(operation)

  @singledispatch
  def _get_matrix(operation):
      raise ValueError(f"Unrecognized operation: {operation}")

  @_get_matrix.register
  def _(gate: GateOperation):
      return gate.matrix

  @_get_matrix.register
  def _(kraus: KrausOperation):
      return kraus.matrices

  @_get_matrix.register
  def _(observable: Observable):
      return observable.diagonalizing_matrix
  \<close>
  The three registered classes are the variants of the value, so dispatch on the type
  is the case distinction on the variant; a value of another type reaches the default
  implementation. The result is one matrix or a list of matrices. The model of
  \<^verbatim>\<open>_get_matrix\<close> is \<open>get_matrix_dispatch\<close>.
\<close>

datatype ('m, 'x) py_object =
    GateOperation (gate_targets: "int list") (gate_matrix: 'm)
  | KrausOperation (kraus_targets: "int list") (kraus_matrices: "'m list")
  | Observable (diagonalizing_matrix: 'm)
  | Other 'x

datatype 'm matrix_result = Single 'm | Ordered_list "'m list"

fun get_matrix_dispatch :: "('m, 'x) py_object \<Rightarrow> error + 'm matrix_result" where
  "get_matrix_dispatch (Other operation) = Inl (ValueError Unrecognized_operation)"
| "get_matrix_dispatch (GateOperation targets matrix) = Inr (Single matrix)"
| "get_matrix_dispatch (KrausOperation targets matrices) = Inr (Ordered_list matrices)"
| "get_matrix_dispatch (Observable diagonalizing) = Inr (Single diagonalizing)"

definition get_matrix :: "('m, 'x) py_object \<Rightarrow> error + 'm matrix_result" where
  "get_matrix operation = get_matrix_dispatch operation"

subsection \<open>The conditions of the validators, entry by entry\<close>

text \<open>
  The conditions as the specification words them, for a square matrix of side \<open>n\<close>,
  written out for the entries: the product of \<open>M\<close> with its conjugate transpose is
  the identity within tolerance; \<open>M\<close> is its own conjugate transpose within tolerance;
  the sum of the products of the conjugate transpose of each matrix with the matrix is
  the identity within tolerance. The tolerance is that of \<open>isclose\<close>, with the second
  argument of \<^verbatim>\<open>np.allclose\<close> in the source as the second argument here.
\<close>

definition unitary_within_tolerance :: "nat \<Rightarrow> matrix \<Rightarrow> bool" where
  "unitary_within_tolerance n M \<longleftrightarrow>
     (\<forall>i<n. \<forall>j<n. isclose (if i = j then 1 else 0) (\<Sum>k<n. M ! i ! k * cnj (M ! j ! k)))"

definition hermitian_within_tolerance :: "nat \<Rightarrow> matrix \<Rightarrow> bool" where
  "hermitian_within_tolerance n M \<longleftrightarrow> (\<forall>i<n. \<forall>j<n. isclose (M ! i ! j) (cnj (M ! j ! i)))"

definition cptp_within_tolerance :: "nat \<Rightarrow> matrix list \<Rightarrow> bool" where
  "cptp_within_tolerance n Ms \<longleftrightarrow>
     (\<forall>i<n. \<forall>j<n.
        isclose (\<Sum>M\<leftarrow>Ms. \<Sum>k<n. cnj (M ! k ! i) * M ! k ! j) (if i = j then 1 else 0))"

section \<open>Properties of the Pauli eigenvalue table\<close>

lemma pauli_eigenvalues_one: "pauli_eigenvalues 1 = Some [1, - 1]"
  by (simp add: pauli_eigenvalues.simps)

lemma pauli_eigenvalues_step:
  assumes "n \<noteq> 1" and "pauli_eigenvalues (n - 1) = Some ys"
  shows "pauli_eigenvalues n = Some (ys @ map uminus ys)"
  using assms by (subst pauli_eigenvalues.simps) simp

lemma pauli_eigenvalues_Some_ge_one:
  assumes "pauli_eigenvalues n = Some xs"
  shows "1 \<le> n"
  using assms
proof (rule pauli_eigenvalues.raw_induct [where P = "\<lambda>n xs. 1 \<le> n", rotated])
  fix pe :: "int \<Rightarrow> int list option" and m :: int and zs :: "int list"
  assume below: "\<And>k ys. pe k = Some ys \<Longrightarrow> 1 \<le> k"
    and body: "(if m = 1 then Some [1, - 1]
      else do {
        first_half \<leftarrow> pe (m - 1);
        second_half \<leftarrow> pe (m - 1);
        Some (first_half @ map uminus second_half)
      }) = Some zs"
  show "1 \<le> m"
  proof (cases "m = 1")
    case True
    then show ?thesis by simp
  next
    case False
    with body obtain ys where "pe (m - 1) = Some ys"
      by (auto split: bind_splits)
    then have "1 \<le> m - 1" by (rule below)
    then show ?thesis by simp
  qed
qed

text \<open>The value at \<open>1 + k\<close>, by recursion on the natural number \<open>k\<close>.\<close>

lemma pauli_eigenvalues_returns:
  "\<exists>xs. pauli_eigenvalues (1 + int k) = Some xs \<and> length xs = 2 ^ Suc k \<and> set xs \<subseteq> {1, - 1}"
proof (induction k)
  case 0
  show ?case by (simp add: pauli_eigenvalues_one)
next
  case (Suc k)
  then obtain ys where ys: "pauli_eigenvalues (1 + int k) = Some ys"
    "length ys = 2 ^ Suc k" "set ys \<subseteq> {1, - 1}"
    by blast
  have "1 + int (Suc k) \<noteq> 1" by simp
  moreover have "pauli_eigenvalues (1 + int (Suc k) - 1) = Some ys"
    using ys(1) by simp
  ultimately have "pauli_eigenvalues (1 + int (Suc k)) = Some (ys @ map uminus ys)"
    by (rule pauli_eigenvalues_step)
  moreover have "length (ys @ map uminus ys) = 2 ^ Suc (Suc k)"
    using ys(2) by simp
  moreover have "set (ys @ map uminus ys) \<subseteq> {1, - 1}"
    using ys(3) by auto
  ultimately show ?case by blast
qed

text \<open>
  Claim C1. For every integer \<open>n \<ge> 1\<close> the call \<open>pauli_eigenvalues n\<close> returns. Its
  result is \<open>[1, -1]\<close> for \<open>n = 1\<close>; for \<open>n > 1\<close> it is the result for \<open>n - 1\<close> followed
  by the element-wise negation of the result for \<open>n - 1\<close>. The result has length
  \<open>2 ^ n\<close> and each of its elements is \<open>1\<close> or \<open>-1\<close>. In particular the result for
  \<open>2\<close> is \<open>[1, -1, -1, 1]\<close>.
\<close>

theorem pauli_eigenvalues_reference:
  "(1 \<le> n \<longrightarrow>
     (\<exists>xs. pauli_eigenvalues n = Some xs
        \<and> (n = 1 \<longrightarrow> xs = [1, - 1])
        \<and> (1 < n \<longrightarrow> (\<exists>ys. pauli_eigenvalues (n - 1) = Some ys \<and> xs = ys @ map uminus ys))
        \<and> length xs = 2 ^ nat n
        \<and> (\<forall>x \<in> set xs. x = 1 \<or> x = - 1)))
   \<and> pauli_eigenvalues 2 = Some [1, - 1, - 1, 1]"
proof (intro conjI impI)
  assume n: "1 \<le> n"
  define k where "k = nat (n - 1)"
  have n_eq: "n = 1 + int k" using n by (simp add: k_def)
  obtain xs where xs: "pauli_eigenvalues n = Some xs" "length xs = 2 ^ Suc k"
    "set xs \<subseteq> {1, - 1}"
    using pauli_eigenvalues_returns [of k] n_eq by auto
  have base: "n = 1 \<longrightarrow> xs = [1, - 1]"
    using xs(1) by (auto simp: pauli_eigenvalues_one)
  have rec: "1 < n \<longrightarrow> (\<exists>ys. pauli_eigenvalues (n - 1) = Some ys \<and> xs = ys @ map uminus ys)"
  proof
    assume gt: "1 < n"
    then have "n - 1 = 1 + int (k - 1)" by (simp add: k_def)
    then obtain ys where ys: "pauli_eigenvalues (n - 1) = Some ys"
      using pauli_eigenvalues_returns [of "k - 1"] by auto
    from gt have "n \<noteq> 1" by simp
    then have "pauli_eigenvalues n = Some (ys @ map uminus ys)"
      using ys by (rule pauli_eigenvalues_step)
    with xs(1) ys show "\<exists>ys. pauli_eigenvalues (n - 1) = Some ys \<and> xs = ys @ map uminus ys"
      by simp
  qed
  have len: "length xs = 2 ^ nat n"
  proof -
    have "nat n = Suc k" using n by (simp add: k_def)
    with xs(2) show ?thesis by simp
  qed
  have elems: "\<forall>x \<in> set xs. x = 1 \<or> x = - 1"
    using xs(3) by auto
  from xs(1) base rec len elems
  show "\<exists>xs. pauli_eigenvalues n = Some xs
        \<and> (n = 1 \<longrightarrow> xs = [1, - 1])
        \<and> (1 < n \<longrightarrow> (\<exists>ys. pauli_eigenvalues (n - 1) = Some ys \<and> xs = ys @ map uminus ys))
        \<and> length xs = 2 ^ nat n
        \<and> (\<forall>x \<in> set xs. x = 1 \<or> x = - 1)"
    by blast
next
  show "pauli_eigenvalues 2 = Some [1, - 1, - 1, 1]"
    by (simp add: pauli_eigenvalues.simps)
qed

theorem pauli_eigenvalues_reference_witness:
  "(1::int) \<le> 3 \<and> (\<exists>xs. pauli_eigenvalues 3 = Some xs \<and> length xs = 8
      \<and> (\<exists>ys. pauli_eigenvalues 2 = Some ys \<and> xs = ys @ map uminus ys))"
  using pauli_eigenvalues_reference [of 3] by auto

text \<open>
  Claim C2 asks that an argument below \<open>1\<close> is answered by an invalid-argument error.
  The function has no such check: below \<open>1\<close> the recursion moves away from its only
  base case, so the call neither returns a value nor raises \<^verbatim>\<open>ValueError\<close>. (CPython
  stops the descent with its own \<^verbatim>\<open>RecursionError\<close> once the interpreter's stack
  limit is hit.)
\<close>

theorem pauli_eigenvalues_below_one_no_result:
  "n < 1 \<Longrightarrow> pauli_eigenvalues n = None"
proof (rule ccontr)
  assume "n < 1" and "pauli_eigenvalues n \<noteq> None"
  then obtain xs where "pauli_eigenvalues n = Some xs" by auto
  then have "1 \<le> n" by (rule pauli_eigenvalues_Some_ge_one)
  with \<open>n < 1\<close> show False by simp
qed

theorem pauli_eigenvalues_below_one_no_result_witness:
  "(0::int) < 1 \<and> pauli_eigenvalues 0 = None"
  using pauli_eigenvalues_below_one_no_result [of 0] by simp

section \<open>Entries of the array operations\<close>

lemma length_tabulate2 [simp]: "length (tabulate2 r c f) = r"
  by (simp add: tabulate2_def)

lemma tabulate2_row: "i < r \<Longrightarrow> tabulate2 r c f ! i = map (f i) [0..<c]"
  by (simp add: tabulate2_def)

lemma tabulate2_entry [simp]: "i < r \<Longrightarrow> j < c \<Longrightarrow> tabulate2 r c f ! i ! j = f i j"
  by (simp add: tabulate2_def)

lemma nrows_tabulate2 [simp]: "nrows (tabulate2 r c f) = r"
  by (simp add: nrows_def)

lemma ncols_tabulate2: "ncols (tabulate2 r c f) = (if r = 0 then 0 else c)"
  by (cases r) (simp_all add: ncols_def tabulate2_def upt_conv_Cons del: upt_Suc)

lemma ncols_tabulate2_square [simp]: "ncols (tabulate2 n n f) = n"
  by (simp add: ncols_tabulate2)

lemma tabulate2_cong:
  "(\<And>i j. i < r \<Longrightarrow> j < c \<Longrightarrow> f i j = g i j) \<Longrightarrow> tabulate2 r c f = tabulate2 r c g"
  by (simp add: tabulate2_def)

lemma has_shape_tabulate2 [simp]: "has_shape r c (tabulate2 r c f)"
  by (simp add: has_shape_def tabulate2_def list_all_iff)

lemma has_shape_eq_tabulate2:
  assumes "has_shape r c A"
  shows "A = tabulate2 r c (\<lambda>i j. A ! i ! j)"
proof (rule nth_equalityI)
  show "length A = length (tabulate2 r c (\<lambda>i j. A ! i ! j))"
    using assms by (simp add: has_shape_def)
next
  fix i assume "i < length A"
  then have i: "i < r" and len: "length (A ! i) = c"
    using assms by (auto simp: has_shape_def list_all_iff)
  have "map (\<lambda>j. A ! i ! j) [0..<c] = A ! i"
    unfolding len [symmetric] by (rule map_nth)
  then show "A ! i = tabulate2 r c (\<lambda>i j. A ! i ! j) ! i"
    using i by (simp add: tabulate2_row)
qed

lemma list_all_tabulate2:
  "list_all (list_all id) (tabulate2 r c p) \<longleftrightarrow> (\<forall>i<r. \<forall>j<c. p i j)"
  by (auto simp: tabulate2_def list_all_iff)

lemma broadcast_dim_same [simp]: "broadcast_dim a a = Some a"
  by (simp add: broadcast_dim_def)

lemma stretched_tabulate2:
  "i < n \<Longrightarrow> j < n \<Longrightarrow> stretched (tabulate2 n n f) i j = f i j"
  by (auto simp: stretched_def)

lemma broadcast2_square:
  "broadcast2 h (tabulate2 n n f) (tabulate2 n n g) = Inr (tabulate2 n n (\<lambda>i j. h (f i j) (g i j)))"
proof -
  have "tabulate2 n n (\<lambda>i j. h (stretched (tabulate2 n n f) i j) (stretched (tabulate2 n n g) i j))
      = tabulate2 n n (\<lambda>i j. h (f i j) (g i j))"
    by (rule tabulate2_cong) (simp add: stretched_tabulate2)
  then show ?thesis
    by (simp add: broadcast2_def)
qed

lemma allclose_square:
  "allclose (tabulate2 n n f) (tabulate2 n n g) = Inr (\<forall>i<n. \<forall>j<n. isclose (f i j) (g i j))"
  by (simp add: allclose_def broadcast2_square list_all_tabulate2)

lemma T_square:
  "T (tabulate2 n n f) = tabulate2 n n (\<lambda>i j. f j i)"
proof -
  have "tabulate2 n n (\<lambda>i j. tabulate2 n n f ! j ! i) = tabulate2 n n (\<lambda>i j. f j i)"
    by (rule tabulate2_cong) simp
  then show ?thesis by (simp add: T_def)
qed

lemma conjugate_tabulate2:
  "conjugate (tabulate2 r c f) = tabulate2 r c (\<lambda>i j. cnj (f i j))"
  by (simp add: conjugate_def tabulate2_def)

lemma dot_square:
  "dot (tabulate2 n n f) (tabulate2 n n g) = tabulate2 n n (\<lambda>i j. \<Sum>k<n. f i k * g k j)"
proof -
  have entry: "(\<Sum>k\<leftarrow>[0..<n]. tabulate2 n n f ! i ! k * tabulate2 n n g ! k ! j) = (\<Sum>k<n. f i k * g k j)"
    if "i < n" "j < n" for i j
  proof -
    have "(\<Sum>k\<leftarrow>[0..<n]. tabulate2 n n f ! i ! k * tabulate2 n n g ! k ! j)
        = (\<Sum>k\<leftarrow>[0..<n]. f i k * g k j)"
      using that by (intro arg_cong [where f = sum_list] map_cong) simp_all
    also have "\<dots> = (\<Sum>k<n. f i k * g k j)"
      by (simp add: interv_sum_list_conv_sum_set_nat atLeast0LessThan)
    finally show ?thesis .
  qed
  have "tabulate2 n n (\<lambda>i j. \<Sum>k\<leftarrow>[0..<n]. tabulate2 n n f ! i ! k * tabulate2 n n g ! k ! j)
      = tabulate2 n n (\<lambda>i j. \<Sum>k<n. f i k * g k j)"
    by (rule tabulate2_cong) (rule entry)
  then show ?thesis
    by (simp add: dot_def)
qed

text \<open>The definitions that evaluate the array operations on a concrete matrix.\<close>

lemmas array_eval = nrows_def ncols_def tabulate2_def eye_def T_def conjugate_def dot_def
  broadcast_dim_def stretched_def broadcast2_def rtol_def atol_def isclose_def allclose_def
  py_sum_def upt_conv_Cons

section \<open>Properties of the validators\<close>

subsection \<open>Dimensions\<close>

text \<open>
  Claim C5. \<open>check_matrix_dimensions\<close> fails with the message that the matrix is not a
  two-dimensional square matrix (the spec's \<open>InvalidShape\<close>) whenever the array does not
  have exactly two axes of equal length, whatever the targets are. For a square matrix
  of side \<open>n\<close> it fails with the dimension message (the spec's \<open>DimensionMismatch\<close>) when
  \<open>n\<close> differs from \<open>2 ^ length targets\<close>, and completes when they are equal. A
  \<open>4 \<times> 4\<close> matrix with one target gives the dimension message, which names \<open>4\<close> and the
  expected \<open>2\<close>; a \<open>2 \<times> 3\<close> matrix gives the shape message for every tuple of targets.
\<close>

theorem check_matrix_dimensions_correct:
  "((length (shape matrix) \<noteq> 2 \<or> (\<exists>r c. shape matrix = [r, c] \<and> r \<noteq> c)) \<longrightarrow>
      check_matrix_dimensions matrix targets = Inl (ValueError Is_not_a_two_dimensional_square_matrix))
   \<and> (shape matrix = [n, n] \<and> n \<noteq> 2 ^ length targets \<longrightarrow>
      check_matrix_dimensions matrix targets =
        Inl (ValueError (Operates_on_space_of_dimension n (2 ^ length targets))))
   \<and> (shape matrix = [2 ^ length targets, 2 ^ length targets] \<longrightarrow>
      check_matrix_dimensions matrix targets = Inr ())
   \<and> (shape matrix = [4, 4] \<and> length targets = 1 \<longrightarrow>
      check_matrix_dimensions matrix targets = Inl (ValueError (Operates_on_space_of_dimension 4 2)))
   \<and> (shape matrix = [2, 3] \<longrightarrow>
      check_matrix_dimensions matrix targets = Inl (ValueError Is_not_a_two_dimensional_square_matrix))"
  by (auto simp: check_matrix_dimensions_def Let_def)

theorem check_matrix_dimensions_correct_witness:
  "check_matrix_dimensions (ndarray_of_rows (eye 4 4)) [0]
     = Inl (ValueError (Operates_on_space_of_dimension 4 2))
   \<and> check_matrix_dimensions (ndarray_of_rows [[1, 2, 3], [4, 5, 6 :: complex]]) [0]
     = Inl (ValueError Is_not_a_two_dimensional_square_matrix)
   \<and> check_matrix_dimensions (ndarray_of_rows [[1, 2, 3], [4, 5, 6 :: complex]]) [0, 1]
     = Inl (ValueError Is_not_a_two_dimensional_square_matrix)
   \<and> check_matrix_dimensions \<lparr>shape = [2, 2, 2], buffer = replicate 8 (0 :: complex)\<rparr> [0]
     = Inl (ValueError Is_not_a_two_dimensional_square_matrix)
   \<and> check_matrix_dimensions (ndarray_of_rows (eye 2 2)) [0] = Inr ()
   \<and> check_matrix_dimensions (ndarray_of_rows (eye 4 4)) [0, 1] = Inr ()"
proof -
  let ?wide = "ndarray_of_rows [[1, 2, 3], [4, 5, 6 :: complex]]"
  let ?cube = "\<lparr>shape = [2, 2, 2], buffer = replicate 8 (0 :: complex)\<rparr>"
  have s44: "shape (ndarray_of_rows (eye 4 4)) = [4, 4]"
    and s22: "shape (ndarray_of_rows (eye 2 2)) = [2, 2]"
    and s23: "shape ?wide = [2, 3]"
    by (simp_all add: ndarray_of_rows_def nrows_def ncols_def eye_def tabulate2_def upt_conv_Cons)
  have "check_matrix_dimensions (ndarray_of_rows (eye 4 4)) [0]
      = Inl (ValueError (Operates_on_space_of_dimension 4 2))"
    using check_matrix_dimensions_correct [of "ndarray_of_rows (eye 4 4)" "[0]" 4]
    by (simp add: s44)
  moreover have "check_matrix_dimensions ?wide [0]
      = Inl (ValueError Is_not_a_two_dimensional_square_matrix)"
    using check_matrix_dimensions_correct [of ?wide "[0]" 0]
    by (simp add: s23)
  moreover have "check_matrix_dimensions ?wide [0, 1]
      = Inl (ValueError Is_not_a_two_dimensional_square_matrix)"
    using check_matrix_dimensions_correct [of ?wide "[0, 1]" 0]
    by (simp add: s23)
  moreover have "check_matrix_dimensions ?cube [0]
      = Inl (ValueError Is_not_a_two_dimensional_square_matrix)"
    using check_matrix_dimensions_correct [of ?cube "[0]" 0]
    by simp
  moreover have "check_matrix_dimensions (ndarray_of_rows (eye 2 2)) [0] = Inr ()"
    using check_matrix_dimensions_correct [of "ndarray_of_rows (eye 2 2)" "[0]" 2]
    by (simp add: s22)
  moreover have "check_matrix_dimensions (ndarray_of_rows (eye 4 4)) [0, 1] = Inr ()"
    using check_matrix_dimensions_correct [of "ndarray_of_rows (eye 4 4)" "[0, 1]" 4]
    by (simp add: s44)
  ultimately show ?thesis by simp
qed

subsection \<open>Unitarity\<close>

lemma check_unitary_square:
  assumes "has_shape n n M"
  shows "check_unitary M =
    (if unitary_within_tolerance n M then Inr () else Inl (ValueError Is_not_unitary))"
proof -
  define f where "f = (\<lambda>i j. M ! i ! j)"
  have M: "M = tabulate2 n n f"
    unfolding f_def using assms by (rule has_shape_eq_tabulate2)
  have len: "length M = n" using assms by (simp add: has_shape_def)
  have "dot M (conjugate (T M)) = tabulate2 n n (\<lambda>i j. \<Sum>k<n. f i k * cnj (f j k))"
    by (subst (1 2) M) (simp add: T_square conjugate_tabulate2 dot_square)
  then have "allclose (eye (length M) (length M)) (dot M (conjugate (T M)))
      = Inr (\<forall>i<n. \<forall>j<n. isclose (if i = j then 1 else 0) (\<Sum>k<n. f i k * cnj (f j k)))"
    by (simp add: len eye_def allclose_square)
  then show ?thesis
    by (simp add: check_unitary_def unitary_within_tolerance_def f_def)
qed

lemma check_unitary_identity: "check_unitary [[1, 0], [0, 1]] = Inr ()"
  by (simp add: check_unitary_def array_eval)

lemma check_unitary_pauli_x: "check_unitary [[0, 1], [1, 0]] = Inr ()"
  by (simp add: check_unitary_def array_eval)

lemma check_unitary_shear: "check_unitary [[1, 1], [0, 1]] = Inl (ValueError Is_not_unitary)"
  by (simp add: check_unitary_def array_eval)

text \<open>
  Claim C3. For a square matrix \<open>M\<close> of side \<open>n\<close>, \<open>check_unitary\<close> completes when the
  product of \<open>M\<close> with its conjugate transpose is the identity of side \<open>n\<close> within
  tolerance, and fails with the message that the matrix is not unitary (the spec's
  \<open>NotUnitary\<close>) otherwise. It accepts the identity and the Pauli X matrix of side
  \<open>2\<close> and rejects the matrix with rows \<open>[1, 1]\<close> and \<open>[0, 1]\<close>.
\<close>

theorem check_unitary_correct:
  "(has_shape n n M \<longrightarrow>
      check_unitary M =
        (if unitary_within_tolerance n M then Inr () else Inl (ValueError Is_not_unitary)))
   \<and> check_unitary [[1, 0], [0, 1]] = Inr ()
   \<and> check_unitary [[0, 1], [1, 0]] = Inr ()
   \<and> check_unitary [[1, 1], [0, 1]] = Inl (ValueError Is_not_unitary)"
  using check_unitary_square [of n M]
  by (simp only: check_unitary_identity check_unitary_pauli_x check_unitary_shear) simp

theorem check_unitary_correct_witness:
  "has_shape 2 2 [[0, 1], [1, 0 :: complex]] \<and> unitary_within_tolerance 2 [[0, 1], [1, 0]]
   \<and> has_shape 2 2 [[1, 1], [0, 1 :: complex]] \<and> \<not> unitary_within_tolerance 2 [[1, 1], [0, 1]]"
proof -
  have x: "has_shape 2 2 [[0, 1], [1, 0 :: complex]]"
    and s: "has_shape 2 2 [[1, 1], [0, 1 :: complex]]"
    by (simp_all add: has_shape_def)
  have "unitary_within_tolerance 2 [[0, 1], [1, 0]]"
    using check_unitary_correct [of 2 "[[0, 1], [1, 0]]"] x
    by (auto split: if_splits)
  moreover have "\<not> unitary_within_tolerance 2 [[1, 1], [0, 1]]"
    using check_unitary_correct [of 2 "[[1, 1], [0, 1]]"] s
    by (auto split: if_splits)
  ultimately show ?thesis using x s by simp
qed

subsection \<open>Hermiticity\<close>

lemma check_hermitian_square:
  assumes "has_shape n n M"
  shows "check_hermitian M =
    (if hermitian_within_tolerance n M then Inr () else Inl (ValueError Is_not_Hermitian))"
proof -
  define f where "f = (\<lambda>i j. M ! i ! j)"
  have M: "M = tabulate2 n n f"
    unfolding f_def using assms by (rule has_shape_eq_tabulate2)
  have "conjugate (T M) = tabulate2 n n (\<lambda>i j. cnj (f j i))"
    by (subst M) (simp add: T_square conjugate_tabulate2)
  then have "allclose M (conjugate (T M)) = allclose (tabulate2 n n f) (tabulate2 n n (\<lambda>i j. cnj (f j i)))"
    using M by simp
  then have "allclose M (conjugate (T M)) = Inr (\<forall>i<n. \<forall>j<n. isclose (f i j) (cnj (f j i)))"
    by (simp only: allclose_square)
  then show ?thesis
    by (simp add: check_hermitian_def hermitian_within_tolerance_def f_def)
qed

lemma check_hermitian_pauli_z: "check_hermitian [[1, 0], [0, - 1]] = Inr ()"
  by (simp add: check_hermitian_def array_eval)

lemma check_hermitian_shear: "check_hermitian [[1, 1], [0, 1]] = Inl (ValueError Is_not_Hermitian)"
  by (simp add: check_hermitian_def array_eval)

text \<open>
  Claim C9. For a square matrix \<open>M\<close> of side \<open>n\<close>, \<open>check_hermitian\<close> completes when
  \<open>M\<close> is its own conjugate transpose within tolerance, and fails with the message
  that the matrix is not Hermitian (the spec's \<open>NotHermitian\<close>) otherwise. It accepts
  the matrix with rows \<open>[1, 0]\<close> and \<open>[0, -1]\<close> and rejects the matrix with rows
  \<open>[1, 1]\<close> and \<open>[0, 1]\<close>.
\<close>

theorem check_hermitian_correct:
  "(has_shape n n M \<longrightarrow>
      check_hermitian M =
        (if hermitian_within_tolerance n M then Inr () else Inl (ValueError Is_not_Hermitian)))
   \<and> check_hermitian [[1, 0], [0, - 1]] = Inr ()
   \<and> check_hermitian [[1, 1], [0, 1]] = Inl (ValueError Is_not_Hermitian)"
  using check_hermitian_square [of n M]
  by (simp only: check_hermitian_pauli_z check_hermitian_shear) simp

theorem check_hermitian_correct_witness:
  "has_shape 2 2 [[1, 0], [0, - 1 :: complex]] \<and> hermitian_within_tolerance 2 [[1, 0], [0, - 1]]
   \<and> has_shape 2 2 [[1, 1], [0, 1 :: complex]] \<and> \<not> hermitian_within_tolerance 2 [[1, 1], [0, 1]]"
proof -
  have z: "has_shape 2 2 [[1, 0], [0, - 1 :: complex]]"
    and s: "has_shape 2 2 [[1, 1], [0, 1 :: complex]]"
    by (simp_all add: has_shape_def)
  have "hermitian_within_tolerance 2 [[1, 0], [0, - 1]]"
    using check_hermitian_correct [of 2 "[[1, 0], [0, - 1]]"] z
    by (auto split: if_splits)
  moreover have "\<not> hermitian_within_tolerance 2 [[1, 1], [0, 1]]"
    using check_hermitian_correct [of 2 "[[1, 1], [0, 1]]"] s
    by (auto split: if_splits)
  ultimately show ?thesis using z s by simp
qed

subsection \<open>The CPTP condition\<close>

text \<open>The product \<open>M\<^sup>H M\<close> of a square matrix, entry by entry.\<close>

lemma gram_square:
  assumes "has_shape n n M"
  shows "dot (conjugate (T M)) M = tabulate2 n n (\<lambda>i j. \<Sum>k<n. cnj (M ! k ! i) * M ! k ! j)"
proof -
  define f where "f = (\<lambda>i j. M ! i ! j)"
  have M: "M = tabulate2 n n f"
    unfolding f_def using assms by (rule has_shape_eq_tabulate2)
  have "dot (conjugate (T M)) M = tabulate2 n n (\<lambda>i j. \<Sum>k<n. cnj (f k i) * f k j)"
    by (subst (1 2) M) (simp add: T_square conjugate_tabulate2 dot_square)
  then show ?thesis by (simp add: f_def)
qed

lemma sum_from_square:
  assumes "\<forall>B \<in> set Bs. has_shape n n B"
  shows "sum_from (NdArray (tabulate2 n n f)) Bs
       = Inr (NdArray (tabulate2 n n (\<lambda>i j. f i j + (\<Sum>B\<leftarrow>Bs. B ! i ! j))))"
  using assms
proof (induction Bs arbitrary: f)
  case Nil
  show ?case by simp
next
  case (Cons B Bs)
  have B: "B = tabulate2 n n (\<lambda>i j. B ! i ! j)"
    using Cons.prems by (intro has_shape_eq_tabulate2) simp
  have "py_add (NdArray (tabulate2 n n f)) B
      = Inr (NdArray (tabulate2 n n (\<lambda>i j. f i j + B ! i ! j)))"
    by (subst B) (simp add: broadcast2_square)
  moreover have "sum_from (NdArray (tabulate2 n n (\<lambda>i j. f i j + B ! i ! j))) Bs
      = Inr (NdArray (tabulate2 n n (\<lambda>i j. f i j + B ! i ! j + (\<Sum>B\<leftarrow>Bs. B ! i ! j))))"
    using Cons.prems by (intro Cons.IH) simp
  ultimately show ?case
    by (simp add: add.assoc)
qed

lemma py_add_zero: "py_add (PyInt 0) B = Inr (NdArray B)"
proof -
  have "(+) (0::complex) = id"
    by (simp add: fun_eq_iff)
  then show ?thesis by simp
qed

lemma py_sum_square:
  assumes "Bs \<noteq> []" and "\<forall>B \<in> set Bs. has_shape n n B"
  shows "py_sum Bs = Inr (NdArray (tabulate2 n n (\<lambda>i j. \<Sum>B\<leftarrow>Bs. B ! i ! j)))"
proof -
  obtain B Bs' where Bs: "Bs = B # Bs'"
    using assms(1) by (cases Bs) auto
  have B: "B = tabulate2 n n (\<lambda>i j. B ! i ! j)"
    using assms(2) Bs by (intro has_shape_eq_tabulate2) simp
  have "py_add (PyInt 0) B = Inr (NdArray B)"
    by (rule py_add_zero)
  then have "py_sum Bs = sum_from (NdArray B) Bs'"
    by (simp add: py_sum_def Bs)
  also have "\<dots> = sum_from (NdArray (tabulate2 n n (\<lambda>i j. B ! i ! j))) Bs'"
    using B by simp
  also have "\<dots> = Inr (NdArray (tabulate2 n n (\<lambda>i j. B ! i ! j + (\<Sum>B\<leftarrow>Bs'. B ! i ! j))))"
    using assms(2) Bs by (intro sum_from_square) simp
  finally show ?thesis by (simp add: Bs)
qed

lemma check_CPTP_square:
  assumes "Ms \<noteq> []" and "\<forall>M \<in> set Ms. has_shape n n M"
  shows "check_CPTP Ms =
    (if cptp_within_tolerance n Ms then Inr () else Inl (ValueError Does_not_satisfy_CPTP))"
proof -
  define g where "g = (\<lambda>M i j. \<Sum>k<n. cnj (M ! k ! i) * M ! k ! j)"
  define Ps where "Ps = map (\<lambda>M. dot (conjugate (T M)) M) Ms"
  have Ps: "Ps = map (\<lambda>M. tabulate2 n n (g M)) Ms"
    unfolding Ps_def g_def using assms(2) by (intro map_cong refl gram_square) simp
  have "Ps \<noteq> []" using assms(1) by (simp add: Ps_def)
  moreover have "\<forall>P \<in> set Ps. has_shape n n P"
    by (auto simp: Ps)
  ultimately have "py_sum Ps = Inr (NdArray (tabulate2 n n (\<lambda>i j. \<Sum>P\<leftarrow>Ps. P ! i ! j)))"
    by (rule py_sum_square)
  also have "tabulate2 n n (\<lambda>i j. \<Sum>P\<leftarrow>Ps. P ! i ! j) = tabulate2 n n (\<lambda>i j. \<Sum>M\<leftarrow>Ms. g M i j)"
  proof (rule tabulate2_cong)
    fix i j assume "i < n" "j < n"
    then show "(\<Sum>P\<leftarrow>Ps. P ! i ! j) = (\<Sum>M\<leftarrow>Ms. g M i j)"
      by (simp add: Ps comp_def)
  qed
  finally have E: "py_sum Ps = Inr (NdArray (tabulate2 n n (\<lambda>i j. \<Sum>M\<leftarrow>Ms. g M i j)))" .
  have "allclose (tabulate2 n n (\<lambda>i j. \<Sum>M\<leftarrow>Ms. g M i j)) (eye n n)
      = Inr (\<forall>i<n. \<forall>j<n. isclose (\<Sum>M\<leftarrow>Ms. g M i j) (if i = j then 1 else 0))"
    by (simp add: eye_def allclose_square)
  with E show ?thesis
    by (simp add: check_CPTP_def Ps_def [symmetric] cptp_within_tolerance_def g_def)
qed

lemma check_CPTP_identity: "check_CPTP [[[1, 0], [0, 1]]] = Inr ()"
  by (simp add: check_CPTP_def array_eval)

lemma check_CPTP_projector:
  "check_CPTP [[[1, 0], [0, 0]]] = Inl (ValueError Does_not_satisfy_CPTP)"
  by (simp add: check_CPTP_def array_eval)

lemma check_CPTP_projector_pair: "check_CPTP [[[1, 0], [0, 0]], [[0, 0], [0, 1]]] = Inr ()"
  by (simp add: check_CPTP_def array_eval)

text \<open>
  Claim C4. For a non-empty list of square matrices of one side \<open>n\<close>, \<open>check_CPTP\<close>
  sums the products of the conjugate transpose of each matrix with the matrix, completes
  when the sum is the identity of its own shape within tolerance, and fails with the
  message that the matrices do not satisfy CPTP (the spec's \<open>NotCPTP\<close>) otherwise. It
  accepts the list of the identity of side \<open>2\<close> alone, rejects the list of the matrix
  with rows \<open>[1, 0]\<close> and \<open>[0, 0]\<close> alone, and accepts that matrix together with its
  complement with rows \<open>[0, 0]\<close> and \<open>[0, 1]\<close>.
\<close>

theorem check_CPTP_correct:
  "(matrices \<noteq> [] \<and> (\<forall>M \<in> set matrices. has_shape n n M) \<longrightarrow>
      check_CPTP matrices =
        (if cptp_within_tolerance n matrices then Inr ()
         else Inl (ValueError Does_not_satisfy_CPTP)))
   \<and> check_CPTP [[[1, 0], [0, 1]]] = Inr ()
   \<and> check_CPTP [[[1, 0], [0, 0]]] = Inl (ValueError Does_not_satisfy_CPTP)
   \<and> check_CPTP [[[1, 0], [0, 0]], [[0, 0], [0, 1]]] = Inr ()"
  using check_CPTP_square [of matrices n]
  by (simp only: check_CPTP_identity check_CPTP_projector check_CPTP_projector_pair) simp

theorem check_CPTP_correct_witness:
  "[[[1, 0], [0, 0]], [[0, 0], [0, 1 :: complex]]] \<noteq> []
   \<and> list_all (has_shape 2 2) [[[1, 0], [0, 0]], [[0, 0], [0, 1 :: complex]]]
   \<and> cptp_within_tolerance 2 [[[1, 0], [0, 0]], [[0, 0], [0, 1]]]
   \<and> \<not> cptp_within_tolerance 2 [[[1, 0], [0, 0]]]"
proof -
  have pair: "\<forall>M \<in> set [[[1, 0], [0, 0]], [[0, 0], [0, 1 :: complex]]]. has_shape 2 2 M"
    and single: "\<forall>M \<in> set [[[1, 0], [0, 0 :: complex]]]. has_shape 2 2 M"
    by (simp_all add: has_shape_def)
  have "cptp_within_tolerance 2 [[[1, 0], [0, 0]], [[0, 0], [0, 1]]]"
    using check_CPTP_correct [of "[[[1, 0], [0, 0]], [[0, 0], [0, 1]]]" 2] pair
    by (auto split: if_splits)
  moreover have "\<not> cptp_within_tolerance 2 [[[1, 0], [0, 0]]]"
    using check_CPTP_correct [of "[[[1, 0], [0, 0]]]" 2] single
    by (auto split: if_splits)
  ultimately show ?thesis using pair by (simp add: list_all_iff)
qed

text \<open>
  Claim C10. On the empty list \<open>check_CPTP\<close> does not complete: the sum over no items
  is the integer \<open>0\<close>, not a matrix, and reading its shape raises \<^verbatim>\<open>AttributeError\<close>.
  The exception is not the \<^verbatim>\<open>ValueError\<close> of a failed CPTP check.
\<close>

theorem check_CPTP_empty:
  "check_CPTP [] = Inl AttributeError
   \<and> check_CPTP [] \<noteq> Inr ()
   \<and> check_CPTP [] \<noteq> Inl (ValueError Does_not_satisfy_CPTP)
   \<and> py_sum [] = Inr (PyInt 0)"
  by (simp add: check_CPTP_def py_sum_def)

theorem check_CPTP_empty_witness:
  "check_CPTP [] = Inl AttributeError"
  using check_CPTP_empty by simp

section \<open>Properties of the decoding\<close>

lemma comprehension_total:
  assumes "\<forall>x \<in> set xs. f x = Inr (g x)"
  shows "comprehension f xs = Inr (map g xs)"
  using assms by (induction xs) simp_all

lemma py_complex_pair:
  "length element = 2 \<Longrightarrow> py_complex element = Inr (Complex (element ! 0) (element ! 1))"
  by (simp add: py_complex_def)

lemma np_array_rectangular:
  assumes "\<forall>row \<in> set rows. length row = c"
  shows "np_array rows = Inr rows"
proof (cases rows)
  case Nil
  then show ?thesis by (simp add: np_array_def)
next
  case (Cons row rest)
  then have "ncols rows = c" using assms by (simp add: ncols_def)
  then show ?thesis using assms by (simp add: np_array_def list_all_iff)
qed

text \<open>
  Claim C8. For raw data whose rows have one length \<open>c\<close> and whose elements are pairs,
  \<open>ir_matrix_to_ndarray\<close> returns a matrix with as many rows as the raw data and \<open>c\<close>
  columns, and its entry at row \<open>i\<close> and column \<open>j\<close> is the complex number with real
  part \<open>raw[i][j][0]\<close> and imaginary part \<open>raw[i][j][1]\<close>: rows and columns keep
  their order.
\<close>

theorem ir_matrix_to_ndarray_entries:
  assumes "\<forall>row \<in> set raw. length row = c"
    and "\<forall>row \<in> set raw. \<forall>element \<in> set row. length element = 2"
  shows "\<exists>M. ir_matrix_to_ndarray raw = Inr M
           \<and> has_shape (length raw) c M
           \<and> (\<forall>i<length raw. \<forall>j<c. M ! i ! j = Complex (raw ! i ! j ! 0) (raw ! i ! j ! 1))"
proof -
  define decode where "decode = (\<lambda>element :: real list. Complex (element ! 0) (element ! 1))"
  define M where "M = map (map decode) raw"
  have rows: "comprehension (\<lambda>element. py_complex element) row = Inr (map decode row)"
    if "row \<in> set raw" for row
    using assms(2) that
    by (intro comprehension_total) (simp add: py_complex_pair decode_def)
  have "comprehension (\<lambda>row. comprehension (\<lambda>element. py_complex element) row) raw = Inr M"
    unfolding M_def by (intro comprehension_total) (simp add: rows)
  moreover have "np_array M = Inr M"
    using assms(1) by (intro np_array_rectangular [where c = c]) (auto simp: M_def)
  ultimately have "ir_matrix_to_ndarray raw = Inr M"
    by (simp add: ir_matrix_to_ndarray_def)
  moreover have "has_shape (length raw) c M"
    using assms(1) by (simp add: has_shape_def M_def list_all_iff)
  moreover have "M ! i ! j = Complex (raw ! i ! j ! 0) (raw ! i ! j ! 1)"
    if "i < length raw" "j < c" for i j
  proof -
    have "length (raw ! i) = c" using assms(1) that(1) by simp
    then show ?thesis using that by (simp add: M_def decode_def)
  qed
  ultimately show ?thesis by blast
qed

theorem ir_matrix_to_ndarray_entries_witness:
  "ir_matrix_to_ndarray [[[1, 2], [3, 4]], [[5, 6], [7, 8]]]
     = Inr [[Complex 1 2, Complex 3 4], [Complex 5 6, Complex 7 8]]"
proof -
  define raw where "raw = [[[1, 2], [3, 4]], [[5, 6], [7, 8 :: real]]]"
  have len: "length raw = 2"
    by (simp add: raw_def)
  have "\<forall>row \<in> set raw. length row = 2"
    and "\<forall>row \<in> set raw. \<forall>element \<in> set row. length element = 2"
    by (simp_all add: raw_def)
  then have "\<exists>M. ir_matrix_to_ndarray raw = Inr M
           \<and> has_shape (length raw) 2 M
           \<and> (\<forall>i<length raw. \<forall>j<2. M ! i ! j = Complex (raw ! i ! j ! 0) (raw ! i ! j ! 1))"
    by (rule ir_matrix_to_ndarray_entries)
  then obtain M where result: "ir_matrix_to_ndarray raw = Inr M"
    and shape_M: "has_shape 2 2 M"
    and entries: "\<And>i j. i < 2 \<Longrightarrow> j < 2 \<Longrightarrow> M ! i ! j = Complex (raw ! i ! j ! 0) (raw ! i ! j ! 1)"
    unfolding len by blast
  have "M = tabulate2 2 2 (\<lambda>i j. M ! i ! j)"
    using shape_M by (rule has_shape_eq_tabulate2)
  also have "\<dots> = tabulate2 2 2 (\<lambda>i j. Complex (raw ! i ! j ! 0) (raw ! i ! j ! 1))"
    by (rule tabulate2_cong) (rule entries)
  also have "\<dots> = [[Complex 1 2, Complex 3 4], [Complex 5 6, Complex 7 8]]"
    by (simp add: tabulate2_def upt_conv_Cons raw_def)
  finally show ?thesis using result by (simp add: raw_def)
qed

section \<open>Properties of the dispatch\<close>

subsection \<open>Classes and linearizations\<close>

lemma self_in_ancestors: "c \<in> set (ancestors c)"
  by (cases c) simp_all

lemma set_ancestors:
  "set (ancestors c) = insert c (\<Union>b \<in> set (cls_bases c). set (ancestors b))"
  by (cases c) auto

lemma Object_in_ancestors: "Object \<in> set (ancestors c)"
proof (induction c)
  case Object
  show ?case by simp
next
  case (Class name abstract declared)
  show ?case
  proof (cases declared)
    case Nil
    then show ?thesis by simp
  next
    case (Cons d ds)
    then have "Object \<in> set (ancestors d)"
      using Class.IH [of d] by simp
    then show ?thesis using Cons by auto
  qed
qed

lemma size_cls_bases: "b \<in> set (cls_bases c) \<Longrightarrow> size b < size c"
  by (cases c) (auto simp: less_Suc_eq_le size_list_estimation' split: if_splits)

lemma collect_Inr:
  "collect (map f xs) = Inr ys \<Longrightarrow> list_all2 (\<lambda>x y. f x = Inr y) xs ys"
proof (induction xs arbitrary: ys)
  case Nil
  then show ?case by simp
next
  case (Cons x xs)
  then show ?case
    by (auto split: sum.splits)
qed

lemma merge_candidate_head: "merge_candidate xs = Some c \<Longrightarrow> c \<in> hd ` set xs"
  by (auto simp: merge_candidate_def find_Some_iff)

text \<open>A merge that succeeds returns the elements of its sequences, all of them.\<close>

lemma c3_merge_elements:
  "c3_merge sequences result = Inr r \<Longrightarrow> set r = set result \<union> (\<Union>s \<in> set sequences. set s)"
proof (induction sequences result arbitrary: r rule: c3_merge.induct)
  case (1 sequences result)
  define xs where "xs = filter (\<lambda>s. s \<noteq> []) sequences"
  have union_xs: "(\<Union>s \<in> set xs. set s) = (\<Union>s \<in> set sequences. set s)"
    by (auto simp: xs_def)
  show ?case
  proof (cases "xs = []")
    case True
    then have "r = result"
      using "1.prems" by (subst (asm) c3_merge.simps) (simp add: xs_def)
    moreover have "(\<Union>s \<in> set xs. set s) = {}"
      using True by simp
    ultimately show ?thesis using union_xs by auto
  next
    case False
    from "1.prems" False obtain candidate where cand: "merge_candidate xs = Some candidate"
      and rec: "c3_merge (map (\<lambda>seq. if hd seq = candidate then tl seq else seq) xs)
                  (result @ [candidate]) = Inr r"
      by (subst (asm) c3_merge.simps) (auto simp: xs_def Let_def split: option.splits)
    define behead where "behead = (\<lambda>seq :: 'a list. if hd seq = candidate then tl seq else seq)"
    have IH: "set r = set (result @ [candidate]) \<union> (\<Union>s \<in> set (map behead xs). set s)"
      unfolding behead_def using False cand rec by (intro "1.IH" [OF xs_def]) simp_all
    have nonempty: "\<forall>s \<in> set xs. s \<noteq> []" by (simp add: xs_def)
    from cand have "candidate \<in> hd ` set xs" by (rule merge_candidate_head)
    then obtain s0 where s0: "s0 \<in> set xs" "hd s0 = candidate" by auto
    then have in_s0: "candidate \<in> set s0" using nonempty by (cases s0) auto
    have each: "insert candidate (set (behead s)) = insert candidate (set s)"
      if "s \<in> set xs" for s
    proof -
      from that nonempty have "s \<noteq> []" by simp
      then obtain a t where "s = a # t" by (cases s) auto
      then show ?thesis by (auto simp: behead_def)
    qed
    have "insert candidate (\<Union>s \<in> set (map behead xs). set s)
        = insert candidate (\<Union>s \<in> set xs. set (behead s))"
      by simp
    also have "\<dots> = (\<Union>s \<in> set xs. insert candidate (set (behead s)))"
      using s0(1) False by (simp add: UN_insert_distrib)
    also have "\<dots> = (\<Union>s \<in> set xs. insert candidate (set s))"
      using each by simp
    also have "\<dots> = insert candidate (\<Union>s \<in> set xs. set s)"
      using s0(1) False by (simp add: UN_insert_distrib)
    also have "\<dots> = (\<Union>s \<in> set xs. set s)"
      using s0(1) in_s0 by auto
    finally have "insert candidate (\<Union>s \<in> set (map behead xs). set s)
        = (\<Union>s \<in> set xs. set s)" .
    with IH union_xs show ?thesis by auto
  qed
qed

text \<open>
  Without abstract base classes to insert, the linearization of a class consists of the
  class and everything it inherits from.
\<close>

lemma c3_mro_no_abcs:
  "c3_mro rt c [] = Inr m \<Longrightarrow> set m = set (ancestors c)"
proof (induction c arbitrary: m rule: measure_induct_rule [of size])
  case (less c)
  define boundary where
    "boundary = length (dropWhile (\<lambda>base. \<not> has_abstractmethods base) (rev (cls_bases c)))"
  define explicit_bases where "explicit_bases = take boundary (cls_bases c)"
  define other_bases where "other_bases = drop boundary (cls_bases c)"
  have split: "cls_bases c = explicit_bases @ other_bases"
    by (simp add: explicit_bases_def other_bases_def)
  from less.prems obtain es os
    where es: "collect (map (\<lambda>base. c3_mro rt base []) explicit_bases) = Inr es"
      and os: "collect (map (\<lambda>base. c3_mro rt base []) other_bases) = Inr os"
      and merge: "c3_merge ([c] # es @ [] @ os @ [explicit_bases, [], other_bases]) [] = Inr m"
    by (subst (asm) c3_mro.simps)
      (auto simp: Let_def boundary_def explicit_bases_def other_bases_def split: sum.splits)
  have bases_mros: "(\<Union>s \<in> set ys. set s) = (\<Union>b \<in> set bs. set (ancestors b))"
    if "collect (map (\<lambda>base. c3_mro rt base []) bs) = Inr ys" and "set bs \<subseteq> set (cls_bases c)"
    for bs ys
  proof -
    have "list_all2 (\<lambda>b y. c3_mro rt b [] = Inr y) bs ys"
      using that(1) by (rule collect_Inr)
    then show ?thesis
      using that(2)
    proof (induction bs ys rule: list_all2_induct)
      case Nil
      show ?case by simp
    next
      case (Cons b bs y ys)
      then have "size b < size c"
        by (intro size_cls_bases) auto
      then have "set y = set (ancestors b)"
        using Cons.hyps(1) by (intro less.IH)
      then show ?case using Cons by simp
    qed
  qed
  have "set m = set [] \<union> (\<Union>s \<in> set ([c] # es @ [] @ os @ [explicit_bases, [], other_bases]). set s)"
    using merge by (rule c3_merge_elements)
  also have "\<dots> = insert c ((\<Union>s \<in> set es. set s) \<union> (\<Union>s \<in> set os. set s)
      \<union> set explicit_bases \<union> set other_bases)"
    by auto
  also have "(\<Union>s \<in> set es. set s) = (\<Union>b \<in> set explicit_bases. set (ancestors b))"
    using es by (rule bases_mros) (simp add: split)
  also have "(\<Union>s \<in> set os. set s) = (\<Union>b \<in> set other_bases. set (ancestors b))"
    using os by (rule bases_mros) (simp add: split)
  also have "insert c ((\<Union>b \<in> set explicit_bases. set (ancestors b))
      \<union> (\<Union>b \<in> set other_bases. set (ancestors b)) \<union> set explicit_bases \<union> set other_bases)
      = insert c (\<Union>b \<in> set (cls_bases c). set (ancestors b))"
    using self_in_ancestors by (auto simp: split)
  finally show ?case by (simp add: set_ancestors [of c])
qed

subsection \<open>The registry\<close>

lemma keys_dict_set: "fst ` set (dict_set k v items) = insert k (fst ` set items)"
  by (induction items) auto

lemma map_of_dict_set_other: "k' \<noteq> k \<Longrightarrow> map_of (dict_set k v items) k' = map_of items k'"
  by (induction items) auto

lemma keys_fold_register:
  "fst ` set (fold register registrations registry) = fst ` set registry \<union> fst ` set registrations"
  by (induction registrations arbitrary: registry) (auto simp: register_def keys_dict_set)

lemma map_of_fold_register_other:
  "k \<notin> fst ` set registrations \<Longrightarrow>
     map_of (fold register registrations registry) k = map_of registry k"
  by (induction registrations arbitrary: registry)
    (auto simp: register_def map_of_dict_set_other)

subsection \<open>Dispatch without a registered superclass\<close>

lemma compose_mro_unrelated:
  assumes "\<forall>key \<in> set types. \<not> is_related rt cls key"
  shows "compose_mro rt cls types = c3_mro rt cls []"
proof -
  have "filter (is_related rt cls) types = []"
    using assms by (simp add: filter_empty_conv)
  then show ?thesis
    by (simp add: compose_mro_def)
qed

lemma find_loop_only_object:
  assumes "Object \<in> set mro"
    and "\<forall>t \<in> set mro. t \<in> set (ancestors cls)"
    and "\<forall>t \<in> set mro. t \<in> fst ` set registry \<longrightarrow> t = Object"
    and "Object \<in> fst ` set registry"
  shows "find_loop rt cls registry None mro = Inr (map_of registry Object)"
  using assms
proof (induction mro)
  case Nil
  then show ?case by simp
next
  case (Cons t ts)
  show ?case
  proof (cases "t = Object")
    case True
    then show ?thesis
      using Cons.prems by (cases ts) simp_all
  next
    case False
    then have "t \<notin> fst ` set registry" and "Object \<in> set ts"
      using Cons.prems by auto
    then show ?thesis
      using Cons by simp
  qed
qed

text \<open>The definitions that evaluate a dispatch on concrete classes.\<close>

lemmas dispatch_eval = from_braket_instruction_def from_braket_instruction_dispatch_def
  wrapper_def dispatch_def find_impl_def compose_mro_def compose_step_def found_for_def
  is_related_def is_strict_base_def issubclass_def subclasses_def append_new_def
  singledispatch_def register_def merge_candidate_def c3_merge.simps
  c3_mro.simps [of _ Object] c3_mro.simps [of _ "Class name abstract declared" for name abstract declared]

lemmas example_classes = BaseModel_def CNot_def SubCNot_def Unknown_def Controlled_def
  Toffoli_def example_runtime_def

text \<open>
  Claim C7, as the spec states it, asks for the error whenever the concrete type of the
  instruction has no registered constructor. Single dispatch does more than look the
  concrete type up: an instance of an unregistered subclass of a registered class is
  given to the constructor of that class.
\<close>

theorem from_braket_instruction_subclass_counterexample:
  "map_of [(CNot, \<lambda>i :: int list instruction. (Inr (parameters i) :: error + int list))] SubCNot
     = None
   \<and> from_braket_instruction example_runtime [(CNot, \<lambda>i. Inr (parameters i))]
        \<lparr>instruction_type = SubCNot, parameters = [0 :: int, 1]\<rparr>
     = (Inr [0, 1] :: error + int list)"
  by (simp add: dispatch_eval example_classes)

text \<open>
  The same holds for a class that is a virtual subclass of a registered abstract base
  class, which is not even among the classes it inherits from.
\<close>

lemma from_braket_instruction_virtual_subclass:
  "Controlled \<notin> set (ancestors Toffoli)
   \<and> from_braket_instruction example_runtime [(Controlled, \<lambda>i. Inr (parameters i))]
        \<lparr>instruction_type = Toffoli, parameters = [0 :: int, 1, 2]\<rparr>
     = (Inr [0, 1, 2] :: error + int list)"
  by (simp add: dispatch_eval example_classes)

text \<open>
  Claim C7, amended. An instruction whose type is a subclass of no class with a
  registered constructor, neither by inheritance nor as a virtual subclass of an
  abstract base class, is answered by the \<^verbatim>\<open>ValueError\<close> of the default
  implementation (the spec's \<open>UnrecognizedInstruction\<close>), and no operation is produced.
  The first hypothesis says that the type exists: its linearization does.
\<close>

theorem from_braket_instruction_unregistered:
  assumes "c3_mro rt (instruction_type instruction) [] = Inr mro"
    and "\<forall>t \<in> fst ` set registrations. \<not> issubclass rt (instruction_type instruction) t"
  shows "from_braket_instruction rt registrations instruction
       = Inl (ValueError Instruction_not_recognized)"
proof -
  define cls where "cls = instruction_type instruction"
  define default_impl :: "('a, 'b) constructor"
    where "default_impl = (\<lambda>instruction. Inl (ValueError Instruction_not_recognized))"
  define registry where "registry = fold register registrations (singledispatch default_impl)"
  have unregistered: "t \<notin> fst ` set registrations" if "t \<in> set (ancestors cls)" for t
    using assms(2) that by (auto simp: issubclass_def cls_def)
  have keys: "fst ` set registry = insert Object (fst ` set registrations)"
    by (simp add: registry_def keys_fold_register singledispatch_def)
  have "Object \<notin> fst ` set registrations"
    by (intro unregistered Object_in_ancestors)
  then have at_object: "map_of registry Object = Some default_impl"
    by (simp add: registry_def map_of_fold_register_other singledispatch_def)
  have "dispatch rt registry cls = Inr (Some default_impl)"
  proof (cases "cls = Object")
    case True
    then show ?thesis by (simp add: dispatch_def at_object)
  next
    case False
    have "cls \<notin> fst ` set registrations"
      by (intro unregistered self_in_ancestors)
    with False have "cls \<notin> fst ` set registry"
      by (simp add: keys)
    then have direct: "map_of registry cls = None"
      by (simp add: map_of_eq_None_iff)
    have "\<forall>key \<in> set (map fst registry). \<not> is_related rt cls key"
    proof
      fix key assume "key \<in> set (map fst registry)"
      then have "key = Object \<or> key \<in> fst ` set registrations"
        using keys by auto
      then show "\<not> is_related rt cls key"
        using assms(2) Object_in_ancestors [of cls] by (auto simp: is_related_def cls_def)
    qed
    then have "compose_mro rt cls (map fst registry) = Inr mro"
      using assms(1) by (simp add: compose_mro_unrelated cls_def)
    moreover have "set mro = set (ancestors cls)"
      using assms(1) unfolding cls_def by (rule c3_mro_no_abcs)
    then have "find_loop rt cls registry None mro = Inr (map_of registry Object)"
      using keys unregistered by (intro find_loop_only_object) (auto simp: Object_in_ancestors)
    ultimately show ?thesis
      by (simp add: dispatch_def direct find_impl_def at_object)
  qed
  then show ?thesis
    by (simp add: from_braket_instruction_def from_braket_instruction_dispatch_def wrapper_def
        registry_def [symmetric] default_impl_def [symmetric] cls_def [symmetric])
      (simp add: default_impl_def)
qed

theorem from_braket_instruction_unregistered_witness:
  "c3_mro example_runtime Unknown [] = Inr [Unknown, BaseModel, Object]
   \<and> \<not> issubclass example_runtime Unknown CNot
   \<and> \<not> issubclass example_runtime Unknown Controlled
   \<and> from_braket_instruction example_runtime
        [(CNot, \<lambda>i. Inr (parameters i)), (Controlled, \<lambda>i. Inr (parameters i))]
        \<lparr>instruction_type = Unknown, parameters = [0 :: int, 1]\<rparr>
     = (Inl (ValueError Instruction_not_recognized) :: error + int list)"
proof -
  let ?registrations = "[(CNot, \<lambda>i :: int list instruction. (Inr (parameters i) :: error + int list)),
    (Controlled, \<lambda>i. Inr (parameters i))]"
  let ?unknown = "\<lparr>instruction_type = Unknown, parameters = [0 :: int, 1]\<rparr>"
  have exists: "c3_mro example_runtime (instruction_type ?unknown) [] = Inr [Unknown, BaseModel, Object]"
    by (simp add: dispatch_eval example_classes)
  have cnot: "\<not> issubclass example_runtime Unknown CNot"
    and controlled: "\<not> issubclass example_runtime Unknown Controlled"
    by (simp_all add: issubclass_def example_classes)
  then have "\<forall>t \<in> fst ` set ?registrations. \<not> issubclass example_runtime (instruction_type ?unknown) t"
    by simp
  with exists have "from_braket_instruction example_runtime ?registrations ?unknown
      = Inl (ValueError Instruction_not_recognized)"
    by (rule from_braket_instruction_unregistered)
  with exists cnot controlled show ?thesis by simp
qed

text \<open>
  Claim C6. \<open>get_matrix\<close> returns the matrix of a gate, the ordered list of matrices
  of a Kraus channel and the diagonalizing matrix of an observable, and fails with the
  \<^verbatim>\<open>ValueError\<close> of the default implementation (the spec's \<open>UnrecognizedOperation\<close>)
  on every other value; it fails on no value of the three variants.
\<close>

theorem get_matrix_exhaustive:
  fixes operation :: "('m, 'x) py_object"
  shows "get_matrix (GateOperation targets matrix :: ('m, 'x) py_object) = Inr (Single matrix)
   \<and> get_matrix (KrausOperation targets matrices :: ('m, 'x) py_object)
       = Inr (Ordered_list matrices)
   \<and> get_matrix (Observable diagonalizing :: ('m, 'x) py_object) = Inr (Single diagonalizing)
   \<and> get_matrix (Other x :: ('m, 'x) py_object) = Inl (ValueError Unrecognized_operation)
   \<and> ((\<exists>e. get_matrix operation = Inl e) = (\<exists>y. operation = Other y))"
  by (cases operation) (simp_all add: get_matrix_def)

theorem get_matrix_exhaustive_witness:
  "get_matrix (GateOperation [0] [[0, 1], [1, 0 :: complex]] :: (matrix, string) py_object)
     = Inr (Single [[0, 1], [1, 0]])
   \<and> get_matrix (KrausOperation [0] [[[1, 0], [0, 0]], [[0, 0], [0, 1 :: complex]]]
        :: (matrix, string) py_object)
     = Inr (Ordered_list [[[1, 0], [0, 0]], [[0, 0], [0, 1]]])
   \<and> get_matrix (Observable [[1, 0], [0, 1 :: complex]] :: (matrix, string) py_object)
     = Inr (Single [[1, 0], [0, 1]])
   \<and> (get_matrix (Other ''H'' :: (matrix, string) py_object)
     = Inl (ValueError Unrecognized_operation))"
  using get_matrix_exhaustive [of "[0]" "[[0, 1], [1, 0 :: complex]]"
      "[[[1, 0], [0, 0]], [[0, 0], [0, 1 :: complex]]]" "[[1, 0], [0, 1 :: complex]]"
      "''H''" "Other ''H''"]
  by simp

end
